theory Spec2Isabelle
  imports Main
begin

section \<open>Raw storage, element lifecycles and the instrumented element type\<close>

text \<open>
  The development embeds \<^verbatim>\<open>src/advanced-vector/vector.h\<close>: the class templates
  \<^verbatim>\<open>RawMemory<T>\<close> and \<^verbatim>\<open>Vector<T>\<close>.

  A slot of a block is either uninitialised storage (\<open>Raw\<close>) or holds a live object with a
  value (\<open>Obj\<close>). Blocks live in an explicit store indexed by block identifiers; a pointer
  into a block is a block identifier (or the null pointer \<open>None\<close>) together with an index.
  \<^verbatim>\<open>size_t\<close> is modelled by \<open>nat\<close>: the only arithmetic on it is \<^verbatim>\<open>size_ * 2\<close>,
  \<^verbatim>\<open>++size_\<close> and \<^verbatim>\<open>--size_\<close>; an array whose doubled size overflows 64 bits cannot be
  allocated, and \<^verbatim>\<open>--size_\<close> at zero is a violated precondition, reported here as
  \<open>Violation\<close>.
\<close>

datatype 'a slot = Raw | Obj 'a

datatype error = BadAlloc | ElemFailure | Violation

datatype 'a event =
    Acquire nat nat
  | Release nat "'a slot list"
  | ArgsCtor | CopyCtor | MoveCtor | ValueCtor | DefaultCtor
  | CopyAssign | MoveAssign
  | Dtor

text \<open>
  The element type \<^verbatim>\<open>T\<close>: the two traits read by the macro
  \<^verbatim>\<open>ISNOTHROWMOVEORCOPYCTOR\<close>, the value a moved-from object is left with, and the values
  produced by value-initialisation and default-initialisation.
\<close>

record 'a elem_type =
  nothrow_move_constructible :: bool
  copy_constructible :: bool
  moved_from :: "'a \<Rightarrow> 'a"
  value_init :: 'a
  default_init :: 'a

text \<open>
  The world: the store of allocated blocks, the next fresh block identifier, the failure
  budget and the trace of events (newest first). The budget instruments the fallible
  operations (allocation, constructors, assignments): \<open>Some k\<close> lets \<open>k\<close> of them
  succeed and makes the next one fail, once; \<open>None\<close> means that nothing fails.
  A failing operation has no effect on its operands.
\<close>

record 'a world =
  mem :: "nat \<Rightarrow> 'a slot list option"
  next_block :: nat
  budget :: "nat option"
  trace :: "'a event list"

definition tick :: "'a world \<Rightarrow> bool \<times> 'a world" where
  "tick s = (case budget s of
       None \<Rightarrow> (False, s)
     | Some 0 \<Rightarrow> (True, s\<lparr>budget := None\<rparr>)
     | Some (Suc k) \<Rightarrow> (False, s\<lparr>budget := Some k\<rparr>))"

definition emit :: "'a event \<Rightarrow> 'a world \<Rightarrow> 'a world" where
  "emit e s = s\<lparr>trace := e # trace s\<rparr>"

definition load :: "'a world \<Rightarrow> nat option \<Rightarrow> nat \<Rightarrow> 'a slot option" where
  "load s p i = (case p of
       None \<Rightarrow> None
     | Some b \<Rightarrow> (case mem s b of
          None \<Rightarrow> None
        | Some sl \<Rightarrow> if i < length sl then Some (sl ! i) else None))"

definition store :: "nat option \<Rightarrow> nat \<Rightarrow> 'a slot \<Rightarrow> 'a world \<Rightarrow> 'a world" where
  "store p i x s = (case p of
       None \<Rightarrow> s
     | Some b \<Rightarrow> (case mem s b of
          None \<Rightarrow> s
        | Some sl \<Rightarrow> s\<lparr>mem := (mem s)(b \<mapsto> sl[i := x])\<rparr>))"

subsection \<open>Operations of the element type\<close>

text \<open>
  How a new element is initialised from the caller's argument: \<^verbatim>\<open>T(args...)\<close>, the copy
  constructor (\<^verbatim>\<open>const T&\<close>) or the move constructor (\<^verbatim>\<open>T&&\<close>).
\<close>

datatype init = FromArgs | ByCopy | ByMove

definition init_event :: "init \<Rightarrow> 'a event" where
  "init_event k = (case k of FromArgs \<Rightarrow> ArgsCtor | ByCopy \<Rightarrow> CopyCtor | ByMove \<Rightarrow> MoveCtor)"

definition init_fallible :: "'a elem_type \<Rightarrow> init \<Rightarrow> bool" where
  "init_fallible et k = (k = ByMove \<longrightarrow> \<not> nothrow_move_constructible et)"

text \<open>Placement-new of an element from the caller's argument into slot \<open>(dp, di)\<close>.\<close>

definition construct_from ::
  "'a elem_type \<Rightarrow> init \<Rightarrow> 'a \<Rightarrow> nat option \<Rightarrow> nat \<Rightarrow> 'a world \<Rightarrow> error option \<times> 'a world" where
  "construct_from et k x dp di s = (case load s dp di of
       None \<Rightarrow> (Some Violation, s)
     | Some _ \<Rightarrow>
         if init_fallible et k then
           (case tick s of
              (True, s1) \<Rightarrow> (Some ElemFailure, s1)
            | (False, s1) \<Rightarrow> (None, emit (init_event k) (store dp di (Obj x) s1)))
         else (None, emit (init_event k) (store dp di (Obj x) s)))"

definition copy_construct ::
  "nat option \<Rightarrow> nat \<Rightarrow> nat option \<Rightarrow> nat \<Rightarrow> 'a world \<Rightarrow> error option \<times> 'a world" where
  "copy_construct sp si dp di s = (case load s sp si of
       Some (Obj x) \<Rightarrow> (case load s dp di of
           None \<Rightarrow> (Some Violation, s)
         | Some _ \<Rightarrow> (case tick s of
              (True, s1) \<Rightarrow> (Some ElemFailure, s1)
            | (False, s1) \<Rightarrow> (None, emit CopyCtor (store dp di (Obj x) s1))))
     | _ \<Rightarrow> (Some Violation, s))"

definition move_construct ::
  "'a elem_type \<Rightarrow> nat option \<Rightarrow> nat \<Rightarrow> nat option \<Rightarrow> nat \<Rightarrow> 'a world \<Rightarrow> error option \<times> 'a world" where
  "move_construct et sp si dp di s = (case load s sp si of
       Some (Obj x) \<Rightarrow> (case load s dp di of
           None \<Rightarrow> (Some Violation, s)
         | Some _ \<Rightarrow>
             if nothrow_move_constructible et then
               (None, emit MoveCtor (store sp si (Obj (moved_from et x)) (store dp di (Obj x) s)))
             else (case tick s of
                (True, s1) \<Rightarrow> (Some ElemFailure, s1)
              | (False, s1) \<Rightarrow>
                  (None, emit MoveCtor (store sp si (Obj (moved_from et x)) (store dp di (Obj x) s1)))))
     | _ \<Rightarrow> (Some Violation, s))"

definition value_construct ::
  "'a elem_type \<Rightarrow> nat option \<Rightarrow> nat \<Rightarrow> 'a world \<Rightarrow> error option \<times> 'a world" where
  "value_construct et dp di s = (case load s dp di of
       None \<Rightarrow> (Some Violation, s)
     | Some _ \<Rightarrow> (case tick s of
          (True, s1) \<Rightarrow> (Some ElemFailure, s1)
        | (False, s1) \<Rightarrow> (None, emit ValueCtor (store dp di (Obj (value_init et)) s1))))"


text \<open>
  Assignments overwrite the value held by the target slot. The target must be storage of
  an allocated block; the source must hold an object.
\<close>

definition copy_assign_elem ::
  "nat option \<Rightarrow> nat \<Rightarrow> nat option \<Rightarrow> nat \<Rightarrow> 'a world \<Rightarrow> error option \<times> 'a world" where
  "copy_assign_elem sp si dp di s = (case load s sp si of
       Some (Obj x) \<Rightarrow> (case load s dp di of
           None \<Rightarrow> (Some Violation, s)
         | Some _ \<Rightarrow> (case tick s of
              (True, s1) \<Rightarrow> (Some ElemFailure, s1)
            | (False, s1) \<Rightarrow> (None, emit CopyAssign (store dp di (Obj x) s1))))
     | _ \<Rightarrow> (Some Violation, s))"

definition move_assign_elem ::
  "'a elem_type \<Rightarrow> nat option \<Rightarrow> nat \<Rightarrow> nat option \<Rightarrow> nat \<Rightarrow> 'a world \<Rightarrow> error option \<times> 'a world" where
  "move_assign_elem et sp si dp di s = (case load s sp si of
       Some (Obj x) \<Rightarrow> (case load s dp di of
           None \<Rightarrow> (Some Violation, s)
         | Some _ \<Rightarrow> (case tick s of
              (True, s1) \<Rightarrow> (Some ElemFailure, s1)
            | (False, s1) \<Rightarrow>
                (None, emit MoveAssign (store sp si (Obj (moved_from et x)) (store dp di (Obj x) s1)))))
     | _ \<Rightarrow> (Some Violation, s))"


text \<open>Destructors do not fail.\<close>

definition destroy_at :: "nat option \<Rightarrow> nat \<Rightarrow> 'a world \<Rightarrow> 'a world" where
  "destroy_at p i s = emit Dtor (store p i Raw s)"

subsection \<open>The standard algorithms used by the container\<close>

text \<open>
  \<open>steps f k n s\<close> runs \<open>f k\<close>, \<open>f (k + 1)\<close>, \dots, \<open>f (k + n - 1)\<close> and stops at the
  first failure; it returns the index it stopped at.
\<close>

fun steps ::
  "(nat \<Rightarrow> 'w \<Rightarrow> error option \<times> 'w) \<Rightarrow> nat \<Rightarrow> nat \<Rightarrow> 'w \<Rightarrow> error option \<times> nat \<times> 'w" where
  "steps f k 0 s = (None, k, s)"
| "steps f k (Suc n) s = (case f k s of
       (Some e, s1) \<Rightarrow> (Some e, k, s1)
     | (None, s1) \<Rightarrow> steps f (Suc k) n s1)"

fun destroy_n :: "nat option \<Rightarrow> nat \<Rightarrow> nat \<Rightarrow> 'a world \<Rightarrow> 'a world" where
  "destroy_n p i 0 s = s"
| "destroy_n p i (Suc n) s = destroy_n p (Suc i) n (destroy_at p i s)"

text \<open>
  The \<^verbatim>\<open>std::uninitialized_*\<close> algorithms destroy what they have constructed when a
  construction fails, and let the failure propagate.
\<close>

definition uninitialized_copy_n ::
  "nat option \<Rightarrow> nat \<Rightarrow> nat \<Rightarrow> nat option \<Rightarrow> nat \<Rightarrow> 'a world \<Rightarrow> error option \<times> 'a world" where
  "uninitialized_copy_n sp si n dp di s =
     (case steps (\<lambda>k. copy_construct sp (si + k) dp (di + k)) 0 n s of
        (None, k, s1) \<Rightarrow> (None, s1)
      | (Some e, k, s1) \<Rightarrow> (Some e, destroy_n dp di k s1))"

definition uninitialized_move_n ::
  "'a elem_type \<Rightarrow> nat option \<Rightarrow> nat \<Rightarrow> nat \<Rightarrow> nat option \<Rightarrow> nat \<Rightarrow> 'a world
     \<Rightarrow> error option \<times> 'a world" where
  "uninitialized_move_n et sp si n dp di s =
     (case steps (\<lambda>k. move_construct et sp (si + k) dp (di + k)) 0 n s of
        (None, k, s1) \<Rightarrow> (None, s1)
      | (Some e, k, s1) \<Rightarrow> (Some e, destroy_n dp di k s1))"

definition uninitialized_value_construct_n ::
  "'a elem_type \<Rightarrow> nat option \<Rightarrow> nat \<Rightarrow> nat \<Rightarrow> 'a world \<Rightarrow> error option \<times> 'a world" where
  "uninitialized_value_construct_n et dp di n s =
     (case steps (\<lambda>k. value_construct et dp (di + k)) 0 n s of
        (None, k, s1) \<Rightarrow> (None, s1)
      | (Some e, k, s1) \<Rightarrow> (Some e, destroy_n dp di k s1))"


text \<open>\<^verbatim>\<open>std::copy_n\<close>: copy-assignments, front to back.\<close>

definition copy_n ::
  "nat option \<Rightarrow> nat \<Rightarrow> nat \<Rightarrow> nat option \<Rightarrow> nat \<Rightarrow> 'a world \<Rightarrow> error option \<times> 'a world" where
  "copy_n sp si n dp di s =
     (case steps (\<lambda>k. copy_assign_elem sp (si + k) dp (di + k)) 0 n s of
        (r, k, s1) \<Rightarrow> (r, s1))"

text \<open>
  \<^verbatim>\<open>std::move(first, last, d_first)\<close> within one block: move-assignments, front to
  back.
\<close>

definition move_range ::
  "'a elem_type \<Rightarrow> nat option \<Rightarrow> nat \<Rightarrow> nat \<Rightarrow> nat \<Rightarrow> 'a world \<Rightarrow> error option \<times> 'a world" where
  "move_range et p first lst d_first s =
     (case steps (\<lambda>k. move_assign_elem et p (first + k) p (d_first + k)) 0 (lst - first) s of
        (r, k, s1) \<Rightarrow> (r, s1))"


section \<open>RawMemory\<close>

text \<open>
  The members \<^verbatim>\<open>buffer_\<close> and \<^verbatim>\<open>capacity_\<close> are named \<open>m_buffer\<close> and
  \<open>m_capacity\<close> (a name cannot end in an underscore here).
\<close>

record RawMemory =
  m_buffer :: "nat option"
  m_capacity :: nat

definition null_memory :: RawMemory where
  "null_memory = \<lparr>m_buffer = None, m_capacity = 0\<rparr>"

text \<open>\<^verbatim>\<open>Allocate\<close>: \<^verbatim>\<open>operator new\<close> for \<open>n \<noteq> 0\<close>, the null pointer otherwise.\<close>

definition Allocate :: "nat \<Rightarrow> 'a world \<Rightarrow> (error + nat option) \<times> 'a world" where
  "Allocate n s =
     (if n \<noteq> 0 then
        (case tick s of
           (True, s1) \<Rightarrow> (Inl BadAlloc, s1)
         | (False, s1) \<Rightarrow>
             (Inr (Some (next_block s1)),
              emit (Acquire (next_block s1) n)
                (s1\<lparr>mem := (mem s1)(next_block s1 \<mapsto> replicate n Raw),
                    next_block := Suc (next_block s1)\<rparr>)))
      else (Inr None, s))"

text \<open>
  \<^verbatim>\<open>Deallocate\<close>: \<^verbatim>\<open>operator delete\<close>; deleting the null pointer does nothing. The
  event records the slots of the block as they are when it is released.
\<close>

definition Deallocate :: "nat option \<Rightarrow> 'a world \<Rightarrow> 'a world" where
  "Deallocate buf s = (case buf of
       None \<Rightarrow> s
     | Some b \<Rightarrow> (case mem s b of
          None \<Rightarrow> emit (Release b []) s
        | Some sl \<Rightarrow> emit (Release b sl) (s\<lparr>mem := (mem s)(b := None)\<rparr>)))"

definition RawMemory_ctor :: "nat \<Rightarrow> 'a world \<Rightarrow> (error + RawMemory) \<times> 'a world" where
  "RawMemory_ctor capacity s = (case Allocate capacity s of
       (Inl e, s1) \<Rightarrow> (Inl e, s1)
     | (Inr buf, s1) \<Rightarrow> (Inr \<lparr>m_buffer = buf, m_capacity = capacity\<rparr>, s1))"

definition RawMemory_dtor :: "RawMemory \<Rightarrow> 'a world \<Rightarrow> 'a world" where
  "RawMemory_dtor m s = Deallocate (m_buffer m) s"

text \<open>
  Move-assignment from a distinct object (\<^verbatim>\<open>this != &rhs\<close>): the pair is the receiver
  and the source afterwards.
\<close>

definition RawMemory_move_assign :: "RawMemory \<Rightarrow> RawMemory \<Rightarrow> RawMemory \<times> RawMemory" where
  "RawMemory_move_assign this rhs =
     (this\<lparr>m_buffer := m_buffer rhs, m_capacity := m_capacity rhs\<rparr>,
      rhs\<lparr>m_buffer := None, m_capacity := 0\<rparr>)"

definition RawMemory_Swap :: "RawMemory \<Rightarrow> RawMemory \<Rightarrow> RawMemory \<times> RawMemory" where
  "RawMemory_Swap this other =
     (this\<lparr>m_buffer := m_buffer other, m_capacity := m_capacity other\<rparr>,
      other\<lparr>m_buffer := m_buffer this, m_capacity := m_capacity this\<rparr>)"

section \<open>Vector\<close>

text \<open>
  The members \<^verbatim>\<open>data_\<close> and \<^verbatim>\<open>size_\<close> are \<open>m_data\<close> and \<open>m_size\<close>. Iterators are
  indices relative to \<^verbatim>\<open>begin()\<close>. An operation takes the array and the world and
  returns the outcome (\<open>None\<close>, or the failure that propagates to the caller), the array
  and the world afterwards; the destructors of local objects run on both exits. Iterators
  and references returned to the caller are not part of the model.
\<close>

record Vector =
  m_data :: RawMemory
  m_size :: nat

definition Capacity :: "Vector \<Rightarrow> nat" where
  "Capacity v = m_capacity (m_data v)"

definition Size :: "Vector \<Rightarrow> nat" where
  "Size v = m_size v"

definition GetAddress :: "Vector \<Rightarrow> nat option" where
  "GetAddress v = m_buffer (m_data v)"

text \<open>\<^verbatim>\<open>Vector() = default\<close>.\<close>

definition Vector_default :: Vector where
  "Vector_default = \<lparr>m_data = null_memory, m_size = 0\<rparr>"

text \<open>\<^verbatim>\<open>~Vector()\<close>, followed by the destructor of the member \<^verbatim>\<open>data_\<close>.\<close>

definition Vector_dtor :: "Vector \<Rightarrow> 'a world \<Rightarrow> 'a world" where
  "Vector_dtor v s = RawMemory_dtor (m_data v) (destroy_n (GetAddress v) 0 (m_size v) s)"

text \<open>
  \<^verbatim>\<open>explicit Vector(size_t size)\<close> and \<^verbatim>\<open>Vector(const Vector& other)\<close>. When the
  construction of the elements fails, the member \<^verbatim>\<open>data_\<close>, already constructed, is
  destroyed and no array exists.
\<close>

definition Vector_sized :: "'a elem_type \<Rightarrow> nat \<Rightarrow> 'a world \<Rightarrow> (error + Vector) \<times> 'a world" where
  "Vector_sized et n s = (case RawMemory_ctor n s of
       (Inl e, s1) \<Rightarrow> (Inl e, s1)
     | (Inr d, s1) \<Rightarrow>
         (case uninitialized_value_construct_n et (m_buffer d) 0 n s1 of
            (Some e, s2) \<Rightarrow> (Inl e, RawMemory_dtor d s2)
          | (None, s2) \<Rightarrow> (Inr \<lparr>m_data = d, m_size = n\<rparr>, s2)))"

definition Vector_copy :: "Vector \<Rightarrow> 'a world \<Rightarrow> (error + Vector) \<times> 'a world" where
  "Vector_copy other s = (case RawMemory_ctor (m_size other) s of
       (Inl e, s1) \<Rightarrow> (Inl e, s1)
     | (Inr d, s1) \<Rightarrow>
         (case uninitialized_copy_n (GetAddress other) 0 (m_size other) (m_buffer d) 0 s1 of
            (Some e, s2) \<Rightarrow> (Inl e, RawMemory_dtor d s2)
          | (None, s2) \<Rightarrow> (Inr \<lparr>m_data = d, m_size = m_size other\<rparr>, s2)))"

text \<open>\<^verbatim>\<open>Vector(Vector&& other)\<close>: the new array and \<open>other\<close> afterwards.\<close>

definition Vector_move :: "Vector \<Rightarrow> Vector \<times> Vector" where
  "Vector_move other =
     (case RawMemory_move_assign null_memory (m_data other) of
        (d, od) \<Rightarrow> (\<lparr>m_data = d, m_size = m_size other\<rparr>, other\<lparr>m_data := od, m_size := 0\<rparr>))"

definition Swap :: "Vector \<Rightarrow> Vector \<Rightarrow> Vector \<times> Vector" where
  "Swap this other =
     (case RawMemory_Swap (m_data this) (m_data other) of
        (d, od) \<Rightarrow> (this\<lparr>m_data := d, m_size := m_size other\<rparr>,
                     other\<lparr>m_data := od, m_size := m_size this\<rparr>))"

text \<open>
  \<^verbatim>\<open>DestroyAndSwap(new_data)\<close>: the array and \<^verbatim>\<open>new_data\<close> afterwards.
\<close>

definition DestroyAndSwap :: "Vector \<Rightarrow> RawMemory \<Rightarrow> 'a world \<Rightarrow> Vector \<times> RawMemory \<times> 'a world" where
  "DestroyAndSwap v new_data s =
     (case RawMemory_Swap (m_data v) new_data of
        (d, nd) \<Rightarrow> (v\<lparr>m_data := d\<rparr>, nd, destroy_n (GetAddress v) 0 (m_size v) s))"

text \<open>The macro \<^verbatim>\<open>ISNOTHROWMOVEORCOPYCTOR\<close>.\<close>

definition ISNOTHROWMOVEORCOPYCTOR :: "'a elem_type \<Rightarrow> bool" where
  "ISNOTHROWMOVEORCOPYCTOR et = (nothrow_move_constructible et \<or> \<not> copy_constructible et)"

definition MoveDataTo ::
  "'a elem_type \<Rightarrow> Vector \<Rightarrow> RawMemory \<Rightarrow> 'a world
     \<Rightarrow> error option \<times> Vector \<times> RawMemory \<times> 'a world" where
  "MoveDataTo et v new_data s =
     (case (if ISNOTHROWMOVEORCOPYCTOR et
            then uninitialized_move_n et (GetAddress v) 0 (m_size v) (m_buffer new_data) 0 s
            else uninitialized_copy_n (GetAddress v) 0 (m_size v) (m_buffer new_data) 0 s) of
        (Some e, s1) \<Rightarrow> (Some e, v, new_data, s1)
      | (None, s1) \<Rightarrow> (case DestroyAndSwap v new_data s1 of (v1, nd, s2) \<Rightarrow> (None, v1, nd, s2)))"


definition Reserve :: "'a elem_type \<Rightarrow> nat \<Rightarrow> Vector \<Rightarrow> 'a world \<Rightarrow> error option \<times> Vector \<times> 'a world" where
  "Reserve et new_capacity v s =
     (if new_capacity \<le> Capacity v then (None, v, s)
      else (case RawMemory_ctor new_capacity s of
          (Inl e, s1) \<Rightarrow> (Some e, v, s1)
        | (Inr new_data, s1) \<Rightarrow>
            (case MoveDataTo et v new_data s1 of
               (r, v1, nd, s2) \<Rightarrow> (r, v1, RawMemory_dtor nd s2))))"

text \<open>
  \<^verbatim>\<open>PushBack(const T&)\<close> is \<open>PushBack et ByCopy\<close>, \<^verbatim>\<open>PushBack(T&&)\<close> is
  \<open>PushBack et ByMove\<close>.
\<close>

definition PushBack ::
  "'a elem_type \<Rightarrow> init \<Rightarrow> 'a \<Rightarrow> Vector \<Rightarrow> 'a world \<Rightarrow> error option \<times> Vector \<times> 'a world" where
  "PushBack et k x v s =
     (if m_size v = Capacity v then
        (case RawMemory_ctor (if m_size v = 0 then 1 else m_size v * 2) s of
           (Inl e, s1) \<Rightarrow> (Some e, v, s1)
         | (Inr new_data, s1) \<Rightarrow>
             (case construct_from et k x (m_buffer new_data) (m_size v) s1 of
                (Some e, s2) \<Rightarrow> (Some e, v, RawMemory_dtor new_data s2)
              | (None, s2) \<Rightarrow>
                  (case MoveDataTo et v new_data s2 of
                     (Some e, v1, nd, s3) \<Rightarrow> (Some e, v1, RawMemory_dtor nd s3)
                   | (None, v1, nd, s3) \<Rightarrow>
                       (None, v1\<lparr>m_size := m_size v1 + 1\<rparr>, RawMemory_dtor nd s3))))
      else
        (case construct_from et k x (GetAddress v) (m_size v) s of
           (Some e, s1) \<Rightarrow> (Some e, v, s1)
         | (None, s1) \<Rightarrow> (None, v\<lparr>m_size := m_size v + 1\<rparr>, s1)))"

text \<open>
  \<^verbatim>\<open>PopBack\<close>: \<^verbatim>\<open>data_[--size_].~T()\<close>. On an empty array the decrement wraps and
  the index is out of range: a violated precondition.
\<close>

definition PopBack :: "Vector \<Rightarrow> 'a world \<Rightarrow> error option \<times> Vector \<times> 'a world" where
  "PopBack v s =
     (if m_size v = 0 \<or> \<not> m_size v - 1 < Capacity v then (Some Violation, v, s)
      else (None, v\<lparr>m_size := m_size v - 1\<rparr>, destroy_at (GetAddress v) (m_size v - 1) s))"








text \<open>
  \<^verbatim>\<open>Erase(pos)\<close>: \<^verbatim>\<open>std::destroy_at(pos)\<close>, then
  \<^verbatim>\<open>std::move(std::next(pos), end(), pos)\<close>, then \<^verbatim>\<open>--size_\<close>. A position that is not
  an element is a violated precondition.
\<close>

definition Erase :: "'a elem_type \<Rightarrow> nat \<Rightarrow> Vector \<Rightarrow> 'a world \<Rightarrow> error option \<times> Vector \<times> 'a world" where
  "Erase et pos v s =
     (if \<not> pos < m_size v then (Some Violation, v, s)
      else
        (case move_range et (GetAddress v) (Suc pos) (m_size v) pos
                (destroy_at (GetAddress v) pos s) of
           (Some e, s1) \<Rightarrow> (Some e, v, s1)
         | (None, s1) \<Rightarrow> (None, v\<lparr>m_size := m_size v - 1\<rparr>, s1)))"

text \<open>
  The right-hand side of an assignment is the receiver itself (\<^verbatim>\<open>this == &rhs\<close>) or
  another array.
\<close>

datatype operand = Self | Other Vector

text \<open>\<^verbatim>\<open>operator=(const Vector& rhs)\<close>.\<close>

definition Vector_copy_assign :: "Vector \<Rightarrow> operand \<Rightarrow> 'a world \<Rightarrow> error option \<times> Vector \<times> 'a world" where
  "Vector_copy_assign this rhs' s = (case rhs' of
       Self \<Rightarrow> (None, this, s)
     | Other rhs \<Rightarrow>
         if m_size rhs > Capacity this then
           (case Vector_copy rhs s of
              (Inl e, s1) \<Rightarrow> (Some e, this, s1)
            | (Inr rhs_copy, s1) \<Rightarrow>
                (case Swap this rhs_copy of
                   (this1, rhs_copy1) \<Rightarrow> (None, this1, Vector_dtor rhs_copy1 s1)))
         else if m_size rhs \<le> m_size this then
           (case copy_n (GetAddress rhs) 0 (m_size rhs) (GetAddress this) 0 s of
              (Some e, s1) \<Rightarrow> (Some e, this, s1)
            | (None, s1) \<Rightarrow>
                (None, this\<lparr>m_size := m_size rhs\<rparr>,
                 destroy_n (GetAddress this) (m_size rhs) (m_size this - m_size rhs) s1))
         else
           (case copy_n (GetAddress rhs) 0 (m_size this) (GetAddress this) 0 s of
              (Some e, s1) \<Rightarrow> (Some e, this, s1)
            | (None, s1) \<Rightarrow>
                (case uninitialized_copy_n (GetAddress rhs) (m_size this)
                        (m_size rhs - m_size this) (GetAddress this) (m_size this) s1 of
                   (Some e, s2) \<Rightarrow> (Some e, this, s2)
                 | (None, s2) \<Rightarrow> (None, this\<lparr>m_size := m_size rhs\<rparr>, s2))))"

text \<open>
  \<^verbatim>\<open>operator=(Vector&& rhs)\<close>: the receiver and the right-hand side afterwards. It
  calls no element operation and touches no block.
\<close>

definition Vector_move_assign :: "Vector \<Rightarrow> operand \<Rightarrow> Vector \<times> operand" where
  "Vector_move_assign this rhs' = (case rhs' of
       Self \<Rightarrow> (this, Self)
     | Other rhs \<Rightarrow>
         (case RawMemory_move_assign (m_data this) (m_data rhs) of
            (d, rd) \<Rightarrow>
              (this\<lparr>m_data := d, m_size := m_size rhs\<rparr>, Other (rhs\<lparr>m_data := rd, m_size := 0\<rparr>))))"

text \<open>
  What a caller observes of an array: \<^verbatim>\<open>Size()\<close>, \<^verbatim>\<open>Capacity()\<close> and the elements read
  through \<^verbatim>\<open>operator[]\<close> at the indices below \<^verbatim>\<open>Size()\<close>.
\<close>

definition at_index :: "Vector \<Rightarrow> nat \<Rightarrow> 'a world \<Rightarrow> 'a slot option" where
  "at_index v i s = (if i < m_size v then load s (GetAddress v) i else None)"

definition elements :: "Vector \<Rightarrow> 'a world \<Rightarrow> 'a slot option list" where
  "elements v s = map (\<lambda>i. at_index v i s) [0..<m_size v]"

definition new_world :: "nat option \<Rightarrow> 'a world" where
  "new_world b = \<lparr>mem = (\<lambda>_. None), next_block = 0, budget = b, trace = []\<rparr>"

section \<open>Element types used in the scenarios\<close>

text \<open>
  An element type that is copy-constructible and whose move constructor may fail, so that
  reallocation copies; and one whose move constructor cannot fail. Both leave a moved-from
  object with its value.
\<close>

definition copying_type :: "int elem_type" where
  "copying_type = \<lparr>nothrow_move_constructible = False, copy_constructible = True,
     moved_from = (\<lambda>x. x), value_init = 0, default_init = 0\<rparr>"

definition moving_type :: "int elem_type" where
  "moving_type = \<lparr>nothrow_move_constructible = True, copy_constructible = True,
     moved_from = (\<lambda>x. x), value_init = 0, default_init = 0\<rparr>"

text \<open>Appending a list of values to an array, while nothing fails.\<close>

fun push_all :: "'a elem_type \<Rightarrow> 'a list \<Rightarrow> Vector \<Rightarrow> 'a world \<Rightarrow> Vector \<times> 'a world" where
  "push_all et [] v s = (v, s)"
| "push_all et (x # xs) v s = (case PushBack et ByCopy x v s of (r, v1, s1) \<Rightarrow> push_all et xs v1 s1)"

text \<open>What a move leaves in the slot it moved from.\<close>

definition moved_slot :: "'a elem_type \<Rightarrow> 'a slot \<Rightarrow> 'a slot" where
  "moved_slot et x = (case x of Raw \<Rightarrow> Raw | Obj y \<Rightarrow> Obj (moved_from et y))"

text \<open>
  Scenario: the receiver \<open>[1]\<close> (capacity 1), the source \<open>[7, 8, 9]\<close>, and a world in
  which the third fallible operation fails.
\<close>

definition recv_1 :: "Vector \<times> int world" where "recv_1 = push_all copying_type [1] Vector_default (new_world None)"
definition src_789 :: "Vector \<times> int world" where "src_789 = push_all copying_type [7, 8, 9] Vector_default (snd recv_1)"
definition world_fail_2 :: "int world" where "world_fail_2 = (snd src_789)\<lparr>budget := Some 2\<rparr>"

text \<open>
  The abstraction: array \<open>v\<close> in world \<open>s\<close> represents the list \<open>xs\<close>.
\<close>

definition rep :: "Vector \<Rightarrow> 'a world \<Rightarrow> 'a list \<Rightarrow> bool" where
  "rep v s xs = (m_size v = length xs \<and> length xs \<le> Capacity v \<and>
     (case GetAddress v of
        None \<Rightarrow> Capacity v = 0
      | Some b \<Rightarrow> b < next_block s \<and>
          (case mem s b of
             None \<Rightarrow> False
           | Some sl \<Rightarrow> length sl = Capacity v \<and> take (length xs) sl = map Obj xs)))"



text \<open>
  The release of the old block at the end of a reallocation, after its first \<open>m_size v\<close>
  slots have been destroyed (nothing is released for the null block).
\<close>

definition release_old :: "Vector \<Rightarrow> 'a world \<Rightarrow> 'a event list" where
  "release_old v s = (case GetAddress v of
       None \<Rightarrow> []
     | Some b \<Rightarrow> (case mem s b of
          None \<Rightarrow> [Release b []]
        | Some sl \<Rightarrow> [Release b (replicate (m_size v) Raw @ drop (m_size v) sl)]))"



text \<open>Two arrays are distinct objects: they do not hold the same block.\<close>

definition separate :: "Vector \<Rightarrow> Vector \<Rightarrow> bool" where
  "separate this rhs = (GetAddress this = None \<or> GetAddress this \<noteq> GetAddress rhs)"

text \<open>
  Scenario: an array constructed with initial size 10, in the world of the array
  \<open>[7, 8, 9]\<close>.
\<close>

definition sized_10 :: "Vector \<times> int world" where
  "sized_10 = (case Vector_sized copying_type 10 (snd src_789) of
       (Inr v, s) \<Rightarrow> (v, s)
     | (Inl e, s) \<Rightarrow> (Vector_default, s))"






section \<open>Properties\<close>

subsection \<open>Effects of the element operations and of the algorithms\<close>

lemma tick_None [simp]: "budget s = None \<Longrightarrow> tick s = (False, s)"
  by (simp add: tick_def)

lemma load_Some: "mem s b = Some sl \<Longrightarrow> load s (Some b) i = (if i < length sl then Some (sl ! i) else None)"
  by (simp add: load_def)

lemma store_Some: "mem s b = Some sl \<Longrightarrow> store (Some b) i x s = s\<lparr>mem := (mem s)(b \<mapsto> sl[i := x])\<rparr>"
  by (simp add: store_def)

lemma destroy_at_Some:
  "mem s b = Some sl \<Longrightarrow>
   destroy_at (Some b) i s = s\<lparr>mem := (mem s)(b \<mapsto> sl[i := Raw]), trace := Dtor # trace s\<rparr>"
  by (simp add: destroy_at_def store_Some emit_def)

lemma replicate_app_Cons_same': "replicate n x @ x # xs = x # replicate n x @ xs"
  by (simp add: replicate_app_Cons_same)

lemma destroy_n_Some:
  "mem s b = Some sl \<Longrightarrow> i + n \<le> length sl \<Longrightarrow>
   destroy_n (Some b) i n s =
     s\<lparr>mem := (mem s)(b \<mapsto> take i sl @ replicate n Raw @ drop (i + n) sl),
       trace := replicate n Dtor @ trace s\<rparr>"
proof (induction n arbitrary: i s sl)
  case 0
  then show ?case by (simp add: map_upd_triv)
next
  case (Suc n)
  have l: "take (Suc i) (sl[i := Raw]) = take i sl @ [Raw]"
    using Suc.prems(2) by (simp add: take_Suc_conv_app_nth)
  show ?case
    using Suc.prems
    apply (simp add: destroy_at_Some Suc.IH [where sl = "sl[i := Raw]"] l replicate_app_Cons_same)
    apply (rule world.equality; simp add: fun_eq_iff)
    done
qed

lemma destroy_n_None [simp]: "destroy_n None i n s = s\<lparr>trace := replicate n Dtor @ trace s\<rparr>"
  by (induction n arbitrary: i s) (simp_all add: destroy_at_def store_def emit_def replicate_app_Cons_same)


lemma world_upd_eq:
  "m1 = m2 \<Longrightarrow> t1 = t2 \<Longrightarrow> (s::'a world)\<lparr>mem := m1, trace := t1\<rparr> = s\<lparr>mem := m2, trace := t2\<rparr>"
  by simp

lemma steps_write:
  fixes s :: "'a world"
  assumes step: "\<And>j (s::'a world) dst. j < m \<Longrightarrow> P s \<Longrightarrow> mem s b = Some dst \<Longrightarrow> length dst = len \<Longrightarrow>
            f j s = (None, s\<lparr>mem := (mem s)(b \<mapsto> dst[di + j := g j]), trace := ev # trace s\<rparr>)"
    and pres: "\<And>(s::'a world) dst' es. P s \<Longrightarrow> P (s\<lparr>mem := (mem s)(b \<mapsto> dst'), trace := es\<rparr>)"
  shows "k + n \<le> m \<Longrightarrow> P s \<Longrightarrow> mem s b = Some dst \<Longrightarrow> length dst = len \<Longrightarrow> di + m \<le> len \<Longrightarrow>
     steps f k n s =
       (None, k + n,
        s\<lparr>mem := (mem s)(b \<mapsto> take (di + k) dst @ map g [k..<k + n] @ drop (di + k + n) dst),
          trace := replicate n ev @ trace s\<rparr>)"
proof (induction n arbitrary: k s dst)
  case 0
  then show ?case by (simp add: map_upd_triv)
next
  case (Suc n)
  let ?s1 = "s\<lparr>mem := (mem s)(b \<mapsto> dst[di + k := g k]), trace := ev # trace s\<rparr>"
  have f: "f k s = (None, ?s1)"
    using Suc.prems by (intro step) simp_all
  have P1: "P ?s1" using Suc.prems(2) by (rule pres)
  have l1: "take (di + Suc k) (dst[di + k := g k]) = take (di + k) dst @ [g k]"
    using Suc.prems by (simp add: take_Suc_conv_app_nth)
  have l2: "map g [k..<k + Suc n] = g k # map g [Suc k..<Suc k + n]"
    by (simp add: upt_conv_Cons del: upt_Suc)
  have "steps f (Suc k) n ?s1 = (None, Suc k + n,
        ?s1\<lparr>mem := (mem ?s1)(b \<mapsto> take (di + Suc k) (dst[di + k := g k]) @ map g [Suc k..<Suc k + n]
               @ drop (di + Suc k + n) (dst[di + k := g k])),
          trace := replicate n ev @ trace ?s1\<rparr>)"
    using Suc.prems P1 by (intro Suc.IH) simp_all
  then show ?case
    using f l1 l2 Suc.prems
    apply (simp add: replicate_app_Cons_same del: upt_Suc)
    apply (rule world.equality; simp add: fun_eq_iff del: upt_Suc)
    done
qed


lemma map_nth_offset: "si + n \<le> length src \<Longrightarrow> map (\<lambda>j. src ! (si + j)) [0..<n] = take n (drop si src)"
  by (rule nth_equalityI) simp_all

lemma range_is_Obj:
  assumes "take n (drop si src) = map Obj ys" "si + n \<le> length src" "j < n"
  shows "src ! (si + j) = Obj (ys ! j)"
proof -
  have "take n (drop si src) ! j = map Obj ys ! j" using assms(1) by simp
  moreover have "length (take n (drop si src)) = length (map Obj ys)" using assms(1) by simp
  then have "length ys = n" using assms(2) by simp
  ultimately show ?thesis using assms(2,3) by simp
qed

lemma copy_construct_ok:
  "budget s = None \<Longrightarrow> mem s a = Some src \<Longrightarrow> a \<noteq> b \<Longrightarrow> si < length src \<Longrightarrow> src ! si = Obj y \<Longrightarrow>
   mem s b = Some dst \<Longrightarrow> di < length dst \<Longrightarrow>
   copy_construct (Some a) si (Some b) di s =
     (None, s\<lparr>mem := (mem s)(b \<mapsto> dst[di := Obj y]), trace := CopyCtor # trace s\<rparr>)"
  by (simp add: copy_construct_def load_Some store_Some emit_def)

lemma uninitialized_copy_n_ok:
  assumes "budget s = None" "mem s a = Some src" "mem s b = Some dst" "a \<noteq> b"
    "si + n \<le> length src" "di + n \<le> length dst" "take n (drop si src) = map Obj ys"
  shows "uninitialized_copy_n (Some a) si n (Some b) di s =
     (None, s\<lparr>mem := (mem s)(b \<mapsto> take di dst @ map Obj ys @ drop (di + n) dst),
              trace := replicate n CopyCtor @ trace s\<rparr>)"
proof -
  have "steps (\<lambda>k. copy_construct (Some a) (si + k) (Some b) (di + k)) 0 n s =
       (None, 0 + n,
        s\<lparr>mem := (mem s)(b \<mapsto> take (di + 0) dst @ map (\<lambda>j. src ! (si + j)) [0..<0 + n] @ drop (di + 0 + n) dst),
          trace := replicate n CopyCtor @ trace s\<rparr>)"
  proof (rule steps_write [where m = n and len = "length dst" and P = "\<lambda>s. budget s = None \<and> mem s a = Some src"])
    fix j and s' :: "'a world" and dst'
    assume "j < n" "budget s' = None \<and> mem s' a = Some src" "mem s' b = Some dst'" "length dst' = length dst"
    then show "copy_construct (Some a) (si + j) (Some b) (di + j) s' =
        (None, s'\<lparr>mem := (mem s')(b \<mapsto> dst'[di + j := src ! (si + j)]), trace := CopyCtor # trace s'\<rparr>)"
      using assms(4,5,6) range_is_Obj [OF assms(7) assms(5), of j]
      by (simp add: copy_construct_ok)
  qed (use assms in simp_all)
  then show ?thesis
    using assms by (simp add: uninitialized_copy_n_def map_nth_offset)
qed


lemma moved_slot_Obj [simp]: "moved_slot et (Obj y) = Obj (moved_from et y)"
  by (simp add: moved_slot_def)








subsection \<open>Blocks that an operation does not touch\<close>

lemma tick_D:
  "tick s = (r, s1) \<Longrightarrow> mem s1 = mem s \<and> next_block s1 = next_block s \<and> trace s1 = trace s"
  by (auto simp add: tick_def split: option.splits nat.splits)

lemma store_frame: "c \<noteq> b \<Longrightarrow> mem (store (Some b) i x s) c = mem s c"
  by (simp add: store_def split: option.splits)

lemma store_next [simp]: "next_block (store p i x s) = next_block s"
  by (simp add: store_def split: option.splits)

lemma emit_fields [simp]: "mem (emit e s) = mem s" "next_block (emit e s) = next_block s"
  "budget (emit e s) = budget s" "trace (emit e s) = e # trace s"
  by (simp_all add: emit_def)

lemma destroy_at_frame: "c \<noteq> b \<Longrightarrow> mem (destroy_at (Some b) i s) c = mem s c"
  by (simp add: destroy_at_def store_frame)

lemma destroy_n_frame: "c \<noteq> b \<Longrightarrow> mem (destroy_n (Some b) i n s) c = mem s c"
  by (induction n arbitrary: i s) (simp_all add: destroy_at_frame)

lemma steps_frame:
  assumes "\<And>j s r s1. f j s = (r, s1) \<Longrightarrow> g s1 = g s" "steps f k n s = (r, j, s1)"
  shows "g s1 = g s"
  using assms(2)
proof (induction n arbitrary: k s)
  case 0
  then show ?case by simp
next
  case (Suc n)
  show ?case
  proof (cases "f k s")
    case (Pair r' s')
    have "g s' = g s" using assms(1) Pair by simp
    then show ?thesis using Pair Suc.IH [of "Suc k" s'] Suc.prems
      by (cases r') auto
  qed
qed

lemma copy_construct_frame:
  "copy_construct sp si (Some b) di s = (r, s1) \<Longrightarrow> c \<noteq> b \<Longrightarrow> mem s1 c = mem s c"
  by (auto simp add: copy_construct_def store_frame
      split: option.splits slot.splits prod.splits bool.splits dest!: tick_D)

lemma uninitialized_copy_n_frame:
  assumes "uninitialized_copy_n sp si n (Some b) di s = (r, s1)" "c \<noteq> b"
  shows "mem s1 c = mem s c"
proof (cases "steps (\<lambda>k. copy_construct sp (si + k) (Some b) (di + k)) 0 n s")
  case (fields r' j s')
  have "mem s' c = mem s c"
    by (rule steps_frame [where g = "\<lambda>s. mem s c", OF _ fields]) (rule copy_construct_frame [OF _ assms(2)])
  then show ?thesis
    using assms fields by (cases r') (auto simp add: uninitialized_copy_n_def destroy_n_frame)
qed

lemma Deallocate_frame: "c \<noteq> b \<Longrightarrow> mem (Deallocate (Some b) s) c = mem s c"
  by (simp add: Deallocate_def split: option.splits)

lemma Allocate_D:
  "Allocate n s = (Inr p, s1) \<Longrightarrow>
     (p = None \<and> n = 0 \<and> s1 = s) \<or>
     (p = Some (next_block s) \<and> n \<noteq> 0 \<and> next_block s1 = Suc (next_block s) \<and>
      mem s1 = (mem s)(next_block s \<mapsto> replicate n Raw))"
  by (auto simp add: Allocate_def split: if_splits prod.splits bool.splits dest!: tick_D)

lemma Allocate_fails_D:
  "Allocate n s = (Inl e, s1) \<Longrightarrow> e = BadAlloc \<and> mem s1 = mem s \<and> next_block s1 = next_block s"
  by (auto simp add: Allocate_def split: if_splits prod.splits bool.splits dest!: tick_D)

lemma Vector_copy_fails_frame:
  assumes "Vector_copy other s = (Inl e, s1)" "c \<noteq> next_block s"
  shows "mem s1 c = mem s c"
proof (cases "Allocate (m_size other) s")
  case (Pair ra sa)
  show ?thesis
  proof (cases ra)
    case (Inl e')
    then show ?thesis using assms Pair Allocate_fails_D [of "m_size other" s e' sa]
      by (simp add: Vector_copy_def RawMemory_ctor_def)
  next
    case (Inr p)
    from Allocate_D [OF Pair [unfolded Inr]] show ?thesis
    proof
      assume "p = None \<and> m_size other = 0 \<and> sa = s"
      then show ?thesis using assms Pair Inr
        by (simp add: Vector_copy_def RawMemory_ctor_def uninitialized_copy_n_def)
    next
      assume a: "p = Some (next_block s) \<and> m_size other \<noteq> 0 \<and> next_block sa = Suc (next_block s) \<and>
         mem sa = (mem s)(next_block s \<mapsto> replicate (m_size other) Raw)"
      obtain r2 s2 where u: "uninitialized_copy_n (GetAddress other) 0 (m_size other) (Some (next_block s)) 0 sa = (r2, s2)"
        by (cases "uninitialized_copy_n (GetAddress other) 0 (m_size other) (Some (next_block s)) 0 sa")
      have "mem s2 c = mem sa c" using uninitialized_copy_n_frame [OF u assms(2)] .
      then show ?thesis using assms Pair Inr a u
        by (cases r2) (auto simp add: Vector_copy_def RawMemory_ctor_def RawMemory_dtor_def Deallocate_frame)
    qed
  qed
qed

lemma elements_cong:
  "(\<And>b. GetAddress v = Some b \<Longrightarrow> mem s1 b = mem s b) \<Longrightarrow> elements v s1 = elements v s"
  by (cases "GetAddress v") (simp_all add: elements_def at_index_def load_def)

lemma rep_NoneD: "rep v s xs \<Longrightarrow> GetAddress v = None \<Longrightarrow> xs = [] \<and> m_size v = 0 \<and> Capacity v = 0"
  by (auto simp add: rep_def)

lemma rep_SomeD:
  "rep v s xs \<Longrightarrow> GetAddress v = Some b \<Longrightarrow>
   \<exists>sl. mem s b = Some sl \<and> length sl = Capacity v \<and> take (length xs) sl = map Obj xs \<and>
        b < next_block s \<and> m_size v = length xs \<and> length xs \<le> Capacity v"
  by (auto simp add: rep_def split: option.splits)

lemma rep_elements: "rep v s xs \<Longrightarrow> elements v s = map (\<lambda>x. Some (Obj x)) xs"
proof (cases "GetAddress v")
  case None
  assume "rep v s xs"
  then show ?thesis using None by (auto simp add: rep_def elements_def)
next
  case (Some b)
  assume "rep v s xs"
  from rep_SomeD [OF this Some] obtain sl where sl: "mem s b = Some sl" "length sl = Capacity v"
    "take (length xs) sl = map Obj xs" "m_size v = length xs" "length xs \<le> Capacity v" by blast
  have "\<And>i. i < length xs \<Longrightarrow> sl ! i = Obj (xs ! i)"
    using sl(3) by (metis nth_map nth_take)
  then show ?thesis
    using sl Some by (intro nth_equalityI) (simp_all add: elements_def at_index_def load_Some)
qed

lemma uninitialized_copy_n_zero [simp]: "uninitialized_copy_n sp si 0 dp di s = (None, s)"
  by (simp add: uninitialized_copy_n_def)

lemma uninitialized_move_n_zero [simp]: "uninitialized_move_n et sp si 0 dp di s = (None, s)"
  by (simp add: uninitialized_move_n_def)


lemma RawMemory_Swap_eq [simp]: "RawMemory_Swap (a::RawMemory) b = (b, a)"
  by (simp add: RawMemory_Swap_def)



lemma RawMemory_ctor_ok:
  "budget s = None \<Longrightarrow> n \<noteq> 0 \<Longrightarrow>
   RawMemory_ctor n s =
     (Inr \<lparr>m_buffer = Some (next_block s), m_capacity = n\<rparr>,
      s\<lparr>mem := (mem s)(next_block s \<mapsto> replicate n Raw), next_block := Suc (next_block s),
        trace := Acquire (next_block s) n # trace s\<rparr>)"
  by (simp add: RawMemory_ctor_def Allocate_def emit_def)

lemma RawMemory_ctor_zero [simp]: "RawMemory_ctor 0 s = (Inr null_memory, s)"
  by (simp add: RawMemory_ctor_def Allocate_def null_memory_def)

lemma Deallocate_Some:
  "mem s b = Some sl \<Longrightarrow>
   Deallocate (Some b) s = s\<lparr>mem := (mem s)(b := None), trace := Release b sl # trace s\<rparr>"
  by (simp add: Deallocate_def emit_def)

lemma Deallocate_None [simp]: "Deallocate None s = s"
  by (simp add: Deallocate_def)


lemma rep_frame:
  assumes "rep v s xs" "\<And>b. GetAddress v = Some b \<Longrightarrow> mem s1 b = mem s b" "next_block s \<le> next_block s1"
  shows "rep v s1 xs"
  using assms by (cases "GetAddress v") (auto simp add: rep_def split: option.splits)











lemma release_old_Some:
  "GetAddress v = Some b \<Longrightarrow> mem s b = Some sl \<Longrightarrow>
   release_old v s = [Release b (replicate (m_size v) Raw @ drop (m_size v) sl)]"
  by (simp add: release_old_def)








lemma prefix_take: "take n sl = map Obj xs \<Longrightarrow> p \<le> n \<Longrightarrow> take p sl = map Obj (take p xs)"
  by (metis min.absorb1 take_map take_take)

lemma prefix_drop: "take n sl = map Obj xs \<Longrightarrow> take (n - p) (drop p sl) = map Obj (drop p xs)"
  by (metis drop_map drop_take)
















lemma copy_assign_elem_ok:
  "budget s = None \<Longrightarrow> mem s a = Some src \<Longrightarrow> a \<noteq> b \<Longrightarrow> si < length src \<Longrightarrow> src ! si = Obj y \<Longrightarrow>
   mem s b = Some dst \<Longrightarrow> di < length dst \<Longrightarrow>
   copy_assign_elem (Some a) si (Some b) di s =
     (None, s\<lparr>mem := (mem s)(b \<mapsto> dst[di := Obj y]), trace := CopyAssign # trace s\<rparr>)"
  by (simp add: copy_assign_elem_def load_Some store_Some emit_def)

lemma copy_n_ok:
  assumes "budget s = None" "mem s a = Some src" "mem s b = Some dst" "a \<noteq> b"
    "si + n \<le> length src" "di + n \<le> length dst" "take n (drop si src) = map Obj ys"
  shows "copy_n (Some a) si n (Some b) di s =
     (None, s\<lparr>mem := (mem s)(b \<mapsto> take di dst @ map Obj ys @ drop (di + n) dst),
              trace := replicate n CopyAssign @ trace s\<rparr>)"
proof -
  have "steps (\<lambda>k. copy_assign_elem (Some a) (si + k) (Some b) (di + k)) 0 n s =
       (None, 0 + n,
        s\<lparr>mem := (mem s)(b \<mapsto> take (di + 0) dst @ map (\<lambda>j. src ! (si + j)) [0..<0 + n] @ drop (di + 0 + n) dst),
          trace := replicate n CopyAssign @ trace s\<rparr>)"
  proof (rule steps_write [where m = n and len = "length dst" and P = "\<lambda>s. budget s = None \<and> mem s a = Some src"])
    fix j and s' :: "'a world" and dst'
    assume "j < n" "budget s' = None \<and> mem s' a = Some src" "mem s' b = Some dst'" "length dst' = length dst"
    then show "copy_assign_elem (Some a) (si + j) (Some b) (di + j) s' =
        (None, s'\<lparr>mem := (mem s')(b \<mapsto> dst'[di + j := src ! (si + j)]), trace := CopyAssign # trace s'\<rparr>)"
      using assms(4,5,6) range_is_Obj [OF assms(7) assms(5), of j]
      by (simp add: copy_assign_elem_ok)
  qed (use assms in simp_all)
  then show ?thesis
    using assms by (simp add: copy_n_def map_nth_offset)
qed

lemma copy_n_zero [simp]: "copy_n sp si 0 dp di s = (None, s)"
  by (simp add: copy_n_def)

lemma Vector_copy_ok:
  assumes r: "rep other s ys" and bud: "budget s = None"
  shows "\<exists>c s1. Vector_copy other s = (Inr c, s1) \<and> rep c s1 ys \<and> Capacity c = length ys \<and>
           budget s1 = None \<and> next_block s \<le> next_block s1 \<and>
           GetAddress c = (if ys = [] then None else Some (next_block s)) \<and>
           (\<forall>blk. blk \<noteq> next_block s \<longrightarrow> mem s1 blk = mem s blk) \<and>
           trace s1 = replicate (length ys) CopyCtor
                        @ (if ys = [] then [] else [Acquire (next_block s) (length ys)]) @ trace s"
proof (cases "ys = []")
  case True
  then show ?thesis
    using r bud
    by (simp add: Vector_copy_def rep_def GetAddress_def Capacity_def null_memory_def)
next
  case False
  have sz: "m_size other = length ys" using r by (simp add: rep_def)
  obtain a where a: "GetAddress other = Some a"
    using r False by (cases "GetAddress other") (auto simp add: rep_def)
  from rep_SomeD [OF r a] obtain src where src: "mem s a = Some src" "length src = Capacity other"
    "take (length ys) src = map Obj ys" "a < next_block s" "length ys \<le> Capacity other"
    by blast
  let ?n = "length ys"
  let ?nb = "next_block s"
  let ?s1 = "s\<lparr>mem := (mem s)(?nb \<mapsto> replicate ?n Raw), next_block := Suc ?nb,
        trace := Acquire ?nb ?n # trace s\<rparr>"
  have al: "RawMemory_ctor ?n s = (Inr \<lparr>m_buffer = Some ?nb, m_capacity = ?n\<rparr>, ?s1)"
    using bud False by (intro RawMemory_ctor_ok) auto
  have u: "uninitialized_copy_n (Some a) 0 ?n (Some ?nb) 0 ?s1 =
     (None, ?s1\<lparr>mem := (mem ?s1)(?nb \<mapsto> take 0 (replicate ?n Raw) @ map Obj ys @ drop (0 + ?n) (replicate ?n Raw)),
              trace := replicate ?n CopyCtor @ trace ?s1\<rparr>)"
    using bud src by (intro uninitialized_copy_n_ok) auto
  show ?thesis
    using al u False sz a bud
    by (simp add: Vector_copy_def rep_def GetAddress_def Capacity_def)
qed

lemma copy_n_rep:
  assumes r: "rep rhs s ys" and bud: "budget s = None" and b: "mem s b = Some dst"
    and n: "n \<le> length ys" "n \<le> length dst" and sep: "GetAddress rhs \<noteq> Some b"
  shows "copy_n (GetAddress rhs) 0 n (Some b) 0 s =
     (None, s\<lparr>mem := (mem s)(b \<mapsto> map Obj (take n ys) @ drop n dst),
              trace := replicate n CopyAssign @ trace s\<rparr>)"
proof (cases "GetAddress rhs")
  case None
  from rep_NoneD [OF r None] n have "n = 0" by simp
  then show ?thesis using b by (simp add: map_upd_triv)
next
  case (Some a)
  from rep_SomeD [OF r Some] obtain src where src: "mem s a = Some src" "length src = Capacity rhs"
    "take (length ys) src = map Obj ys" "length ys \<le> Capacity rhs"
    by blast
  have "take n (drop 0 src) = map Obj (take n ys)"
    using prefix_take [OF src(3) n(1)] by simp
  from copy_n_ok [OF bud src(1) b _ _ _ this, of 0] show ?thesis
    using Some sep n src by simp
qed

lemma uninitialized_copy_n_rep:
  assumes r: "rep rhs s ys" and bud: "budget s = None" and b: "mem s b = Some dst"
    and n: "k \<le> length ys" "length ys \<le> length dst" and sep: "GetAddress rhs \<noteq> Some b"
  shows "uninitialized_copy_n (GetAddress rhs) k (length ys - k) (Some b) k s =
     (None, s\<lparr>mem := (mem s)(b \<mapsto> take k dst @ map Obj (drop k ys) @ drop (length ys) dst),
              trace := replicate (length ys - k) CopyCtor @ trace s\<rparr>)"
proof (cases "GetAddress rhs")
  case None
  from rep_NoneD [OF r None] n have "ys = []" "k = 0" by simp_all
  then show ?thesis using b by (simp add: map_upd_triv)
next
  case (Some a)
  from rep_SomeD [OF r Some] obtain src where src: "mem s a = Some src" "length src = Capacity rhs"
    "take (length ys) src = map Obj ys" "length ys \<le> Capacity rhs"
    by blast
  have "take (length ys - k) (drop k src) = map Obj (drop k ys)"
    using prefix_drop [OF src(3)] .
  from uninitialized_copy_n_ok [OF bud src(1) b _ _ _ this, of k] show ?thesis
    using Some sep n src by simp
qed

lemma copy_assign_shrink:
  assumes t: "rep this s xs" and r: "rep rhs s ys" and bud: "budget s = None"
    and sep: "separate this rhs" and n: "length ys \<le> m_size this"
  shows "\<exists>s1. Vector_copy_assign this (Other rhs) s = (None, this\<lparr>m_size := length ys\<rparr>, s1) \<and>
           rep (this\<lparr>m_size := length ys\<rparr>) s1 ys \<and> rep rhs s1 ys \<and> budget s1 = None \<and>
           trace s1 = replicate (m_size this - length ys) Dtor @ replicate (length ys) CopyAssign @ trace s \<and>
           (\<forall>i. length ys \<le> i \<and> i < m_size this \<longrightarrow> load s1 (GetAddress this) i = Some Raw)"
proof (cases "GetAddress this")
  case None
  from rep_NoneD [OF t None] n have z: "xs = []" "m_size this = 0" "Capacity this = 0" "ys = []" by auto
  have "m_size rhs = 0" using r z by (simp add: rep_def)
  then show ?thesis
    using z None bud r
    by (simp add: Vector_copy_assign_def rep_def GetAddress_def Capacity_def)
next
  case (Some b)
  from rep_SomeD [OF t Some] obtain sl where sl: "mem s b = Some sl" "length sl = Capacity this"
    "take (length xs) sl = map Obj xs" "b < next_block s" "m_size this = length xs" "length xs \<le> Capacity this"
    by blast
  have sz: "m_size rhs = length ys" using r by (simp add: rep_def)
  have sp: "GetAddress rhs \<noteq> Some b" using sep Some by (auto simp add: separate_def)
  have c: "copy_n (GetAddress rhs) 0 (length ys) (Some b) 0 s =
     (None, s\<lparr>mem := (mem s)(b \<mapsto> map Obj (take (length ys) ys) @ drop (length ys) sl),
              trace := replicate (length ys) CopyAssign @ trace s\<rparr>)"
    using n sl by (intro copy_n_rep [OF r bud sl(1) _ _ sp]) auto
  let ?s1 = "s\<lparr>mem := (mem s)(b \<mapsto> map Obj ys @ drop (length ys) sl),
              trace := replicate (length ys) CopyAssign @ trace s\<rparr>"
  let ?k = "m_size this - length ys"
  have d: "destroy_n (Some b) (length ys) ?k ?s1 =
     ?s1\<lparr>mem := (mem ?s1)(b \<mapsto> take (length ys) (map Obj ys @ drop (length ys) sl) @ replicate ?k Raw
                 @ drop (length ys + ?k) (map Obj ys @ drop (length ys) sl)),
       trace := replicate ?k Dtor @ trace ?s1\<rparr>"
    using n sl by (intro destroy_n_Some) auto
  have rr: "rep rhs (?s1\<lparr>mem := (mem ?s1)(b \<mapsto> take (length ys) (map Obj ys @ drop (length ys) sl) @ replicate ?k Raw
                 @ drop (length ys + ?k) (map Obj ys @ drop (length ys) sl)),
       trace := replicate ?k Dtor @ trace ?s1\<rparr>) ys"
    using sp by (intro rep_frame [OF r]) auto
  show ?thesis
    using c d rr n sl Some sz bud
    by (auto simp add: Vector_copy_assign_def Capacity_def GetAddress_def rep_def load_Some nth_append)
qed

lemma copy_assign_within_capacity:
  assumes t: "rep this s xs" and r: "rep rhs s ys" and bud: "budget s = None"
    and sep: "separate this rhs" and n: "m_size this < length ys" "length ys \<le> Capacity this"
  shows "\<exists>s1. Vector_copy_assign this (Other rhs) s = (None, this\<lparr>m_size := length ys\<rparr>, s1) \<and>
           rep (this\<lparr>m_size := length ys\<rparr>) s1 ys \<and> rep rhs s1 ys \<and> budget s1 = None \<and>
           trace s1 = replicate (length ys - m_size this) CopyCtor @ replicate (m_size this) CopyAssign @ trace s"
proof (cases "GetAddress this")
  case None
  from rep_NoneD [OF t None] n show ?thesis by simp
next
  case (Some b)
  from rep_SomeD [OF t Some] obtain sl where sl: "mem s b = Some sl" "length sl = Capacity this"
    "take (length xs) sl = map Obj xs" "b < next_block s" "m_size this = length xs" "length xs \<le> Capacity this"
    by blast
  let ?m = "m_size this"
  have sz: "m_size rhs = length ys" using r by (simp add: rep_def)
  have sp: "GetAddress rhs \<noteq> Some b" using sep Some by (auto simp add: separate_def)
  let ?sl1 = "map Obj (take ?m ys) @ drop ?m sl"
  let ?s1 = "s\<lparr>mem := (mem s)(b \<mapsto> ?sl1), trace := replicate ?m CopyAssign @ trace s\<rparr>"
  have c: "copy_n (GetAddress rhs) 0 ?m (Some b) 0 s = (None, ?s1)"
    using n sl by (intro copy_n_rep [OF r bud sl(1) _ _ sp]) auto
  have r1: "rep rhs ?s1 ys"
    using sp by (intro rep_frame [OF r]) auto
  have b1: "budget ?s1 = None" "mem ?s1 b = Some ?sl1" using bud by simp_all
  let ?sl2 = "take ?m ?sl1 @ map Obj (drop ?m ys) @ drop (length ys) ?sl1"
  let ?s2 = "?s1\<lparr>mem := (mem ?s1)(b \<mapsto> ?sl2), trace := replicate (length ys - ?m) CopyCtor @ trace ?s1\<rparr>"
  have u: "uninitialized_copy_n (GetAddress rhs) ?m (length ys - ?m) (Some b) ?m ?s1 = (None, ?s2)"
    using n sl by (intro uninitialized_copy_n_rep [OF r1 b1 _ _ sp]) auto
  have r2: "rep rhs ?s2 ys"
    using sp by (intro rep_frame [OF r1]) auto
  have e: "?sl2 = map Obj ys @ drop (length ys) sl"
  proof -
    have k1: "take ?m ?sl1 = map Obj (take ?m ys)" using n by (simp add: min_def)
    have k2: "drop (length ys) ?sl1 = drop (length ys) sl" using n sl by (simp add: min_def)
    have "?sl2 = map Obj (take ?m ys) @ map Obj (drop ?m ys) @ drop (length ys) sl"
      unfolding k1 k2 ..
    also have "\<dots> = map Obj (take ?m ys @ drop ?m ys) @ drop (length ys) sl"
      by (simp only: map_append append_assoc)
    finally show ?thesis by (simp only: append_take_drop_id)
  qed
  have len: "length ?sl2 = length sl" unfolding e using n sl by simp
  have tk: "take (length ys) ?sl2 = map Obj ys" unfolding e by simp
  have res: "Vector_copy_assign this (Other rhs) s = (None, this\<lparr>m_size := length ys\<rparr>, ?s2)"
    using n sz c u Some by (simp add: Vector_copy_assign_def GetAddress_def)
  have "rep (this\<lparr>m_size := length ys\<rparr>) ?s2 ys"
    using Some sl n len tk unfolding rep_def by (simp add: GetAddress_def Capacity_def)
  then show ?thesis
    using res r2 bud by (intro exI [of _ ?s2]) simp
qed

lemma rep_cong:
  "GetAddress v' = GetAddress v \<Longrightarrow> Capacity v' = Capacity v \<Longrightarrow> m_size v' = m_size v \<Longrightarrow>
   rep v' s xs = rep v s xs"
  by (simp add: rep_def cong: option.case_cong)

lemma copy_assign_realloc:
  assumes t: "rep this s xs" and r: "rep rhs s ys" and bud: "budget s = None"
    and sep: "separate this rhs" and n: "Capacity this < length ys"
  shows "\<exists>this1 s1. Vector_copy_assign this (Other rhs) s = (None, this1, s1) \<and>
           rep this1 s1 ys \<and> rep rhs s1 ys \<and> budget s1 = None \<and>
           Capacity this1 = length ys \<and> GetAddress this1 = Some (next_block s) \<and>
           trace s1 = release_old this s @ replicate (m_size this) Dtor @ replicate (length ys) CopyCtor
                        @ Acquire (next_block s) (length ys) # trace s"
proof -
  have ne: "ys \<noteq> []" using n by auto
  have sz: "m_size rhs = length ys" using r by (simp add: rep_def)
  from Vector_copy_ok [OF r bud] ne obtain c s1 where
    c: "Vector_copy rhs s = (Inr c, s1)" "rep c s1 ys" "Capacity c = length ys" "budget s1 = None"
       "next_block s \<le> next_block s1" "GetAddress c = Some (next_block s)"
       "\<forall>blk. blk \<noteq> next_block s \<longrightarrow> mem s1 blk = mem s blk"
       "trace s1 = replicate (length ys) CopyCtor @ Acquire (next_block s) (length ys) # trace s"
    by auto
  let ?this1 = "this\<lparr>m_data := m_data c, m_size := m_size c\<rparr>"
  let ?old = "c\<lparr>m_data := m_data this, m_size := m_size this\<rparr>"
  have sw: "Swap this c = (?this1, ?old)" by (simp add: Swap_def)
  have res: "Vector_copy_assign this (Other rhs) s = (None, ?this1, Vector_dtor ?old s1)"
    using n sz c(1) sw by (simp add: Vector_copy_assign_def)
  have r1: "rep rhs s1 ys"
  proof (rule rep_frame [OF r _ c(5)])
    fix a assume "GetAddress rhs = Some a"
    with rep_SomeD [OF r this] have "a \<noteq> next_block s" by auto
    then show "mem s1 a = mem s a" using c(7) by simp
  qed
  show ?thesis
  proof (cases "GetAddress this")
    case None
    from rep_NoneD [OF t None] have z: "m_size this = 0" by simp
    have d: "Vector_dtor ?old s1 = s1"
      using None z by (simp add: Vector_dtor_def GetAddress_def RawMemory_dtor_def)
    have "rep ?this1 s1 ys"
      using c(2) rep_cong [of ?this1 c s1 ys] by (simp add: GetAddress_def Capacity_def)
    then show ?thesis
      unfolding res d using r1 c None z
      by (simp add: GetAddress_def Capacity_def release_old_def)
  next
    case (Some b)
    from rep_SomeD [OF t Some] obtain sl where sl: "mem s b = Some sl" "length sl = Capacity this"
      "b < next_block s" "m_size this = length xs" "length xs \<le> Capacity this"
      by blast
    have bn: "b \<noteq> next_block s" using sl(3) by simp
    have m1: "mem s1 b = Some sl" using c(7) bn sl(1) by simp
    let ?k = "m_size this"
    let ?s2 = "s1\<lparr>mem := (mem s1)(b \<mapsto> take 0 sl @ replicate ?k Raw @ drop (0 + ?k) sl),
       trace := replicate ?k Dtor @ trace s1\<rparr>"
    have d1: "destroy_n (Some b) 0 ?k s1 = ?s2"
      using m1 sl by (intro destroy_n_Some) auto
    let ?s3 = "?s2\<lparr>mem := (mem ?s2)(b := None),
        trace := Release b (take 0 sl @ replicate ?k Raw @ drop (0 + ?k) sl) # trace ?s2\<rparr>"
    have d2: "Deallocate (Some b) ?s2 = ?s3"
      by (intro Deallocate_Some) simp
    have d: "Vector_dtor ?old s1 = ?s3"
      using Some d1 d2 by (simp add: Vector_dtor_def GetAddress_def RawMemory_dtor_def)
    have sp: "GetAddress rhs \<noteq> Some b" using sep Some by (auto simp add: separate_def)
    have r3: "rep rhs ?s3 ys"
      using sp by (intro rep_frame [OF r1]) auto
    have "rep c ?s3 ys"
      using c(6) bn by (intro rep_frame [OF c(2)]) auto
    then have t3: "rep ?this1 ?s3 ys"
      using rep_cong [of ?this1 c ?s3 ys] by (simp add: GetAddress_def Capacity_def)
    show ?thesis
      unfolding res d using r3 t3 c(3,4,6,8) Some sl(1)
      by (simp add: GetAddress_def Capacity_def release_old_def)
  qed
qed

lemma construct_from_frame:
  "construct_from et k x (Some b) di s = (r, s1) \<Longrightarrow> c \<noteq> b \<Longrightarrow> mem s1 c = mem s c"
  by (auto simp add: construct_from_def store_frame
      split: option.splits prod.splits bool.splits if_splits dest!: tick_D)


lemma RawMemory_ctor_D:
  "RawMemory_ctor n s = (Inr nd, s1) \<Longrightarrow>
     m_capacity nd = n \<and>
     ((m_buffer nd = None \<and> n = 0 \<and> s1 = s) \<or>
      (m_buffer nd = Some (next_block s) \<and> n \<noteq> 0 \<and> next_block s1 = Suc (next_block s) \<and>
       mem s1 = (mem s)(next_block s \<mapsto> replicate n Raw)))"
  by (auto simp add: RawMemory_ctor_def split: prod.splits sum.splits dest!: Allocate_D)

lemma RawMemory_ctor_fails:
  "RawMemory_ctor n s = (Inl e, s1) \<Longrightarrow> e = BadAlloc \<and> mem s1 = mem s \<and> next_block s1 = next_block s"
  by (auto simp add: RawMemory_ctor_def split: prod.splits sum.splits dest!: Allocate_fails_D)

lemma MoveDataTo_copy_fails:
  assumes "MoveDataTo et v nd s = (Some e, v1, nd1, s1)" "\<not> ISNOTHROWMOVEORCOPYCTOR et"
    "m_buffer nd = Some nb" "c \<noteq> nb"
  shows "v1 = v \<and> nd1 = nd \<and> mem s1 c = mem s c"
proof (cases "uninitialized_copy_n (GetAddress v) 0 (m_size v) (Some nb) 0 s")
  case (Pair r' s')
  from uninitialized_copy_n_frame [OF Pair assms(4)] show ?thesis
    using assms Pair by (cases r') (auto simp add: MoveDataTo_def split: prod.splits)
qed


lemma Reserve_copy_fails:
  assumes "Reserve et n v s = (Some e, v1, s1)" "\<not> ISNOTHROWMOVEORCOPYCTOR et" "c \<noteq> next_block s"
  shows "v1 = v \<and> mem s1 c = mem s c"
proof (cases "n \<le> Capacity v")
  case True
  then show ?thesis using assms by (simp add: Reserve_def)
next
  case False
  show ?thesis
  proof (cases "RawMemory_ctor n s")
    case (Pair ra sa)
    show ?thesis
    proof (cases ra)
      case (Inl e')
      then show ?thesis
        using assms False Pair RawMemory_ctor_fails [of n s e' sa] by (simp add: Reserve_def)
    next
      case (Inr nd)
      have n0: "n \<noteq> 0" using False by auto
      from RawMemory_ctor_D [OF Pair [unfolded Inr]] n0
      have nd: "m_buffer nd = Some (next_block s)" "mem sa = (mem s)(next_block s \<mapsto> replicate n Raw)"
        by auto
      obtain r2 v2 nd2 s2 where m: "MoveDataTo et v nd sa = (r2, v2, nd2, s2)"
        by (cases "MoveDataTo et v nd sa") auto
      have r2: "r2 = Some e" "v1 = v2" "s1 = RawMemory_dtor nd2 s2"
        using assms(1) False Pair Inr m by (simp_all add: Reserve_def)
      from MoveDataTo_copy_fails [OF m [unfolded r2(1)] assms(2) nd(1) assms(3)]
      have "v2 = v" "nd2 = nd" "mem s2 c = mem sa c" by auto
      then show ?thesis
        using r2 nd assms(3) by (auto simp add: RawMemory_dtor_def Deallocate_frame)
    qed
  qed
qed

lemma PushBack_copy_fails:
  assumes "PushBack et k x v s = (Some e, v1, s1)" "\<not> ISNOTHROWMOVEORCOPYCTOR et" "c \<noteq> next_block s"
    "m_size v = Capacity v"
  shows "v1 = v \<and> mem s1 c = mem s c"
proof (cases "RawMemory_ctor (if m_size v = 0 then 1 else m_size v * 2) s")
  case (Pair ra sa)
  let ?n = "if m_size v = 0 then 1 else m_size v * 2"
  show ?thesis
  proof (cases ra)
    case (Inl e')
    then show ?thesis
      using assms Pair RawMemory_ctor_fails [of ?n s e' sa] by (simp add: PushBack_def)
  next
    case (Inr nd)
    have n0: "?n \<noteq> 0" by auto
    from RawMemory_ctor_D [OF Pair [unfolded Inr]] n0
    have nd: "m_buffer nd = Some (next_block s)" "mem sa = (mem s)(next_block s \<mapsto> replicate ?n Raw)"
      by auto
    obtain rc sc where cf: "construct_from et k x (Some (next_block s)) (m_size v) sa = (rc, sc)"
      by (cases "construct_from et k x (Some (next_block s)) (m_size v) sa") auto
    have fc: "mem sc c = mem s c"
      using construct_from_frame [OF cf assms(3)] nd(2) assms(3) by simp
    show ?thesis
    proof (cases rc)
      case (Some e')
      then show ?thesis
        using assms(1,3,4) Pair Inr nd cf fc
        by (auto simp add: PushBack_def RawMemory_dtor_def Deallocate_frame)
    next
      case None
      obtain r2 v2 nd2 s2 where m: "MoveDataTo et v nd sc = (r2, v2, nd2, s2)"
        by (cases "MoveDataTo et v nd sc") auto
      show ?thesis
      proof (cases r2)
        case None2: None
        then show ?thesis
          using assms(1,4) Pair Inr nd cf None m by (simp add: PushBack_def)
      next
        case (Some e2)
        from MoveDataTo_copy_fails [OF m [unfolded Some] assms(2) nd(1) assms(3)]
        have "v2 = v" "nd2 = nd" "mem s2 c = mem sc c" by auto
        then show ?thesis
          using assms(1,3,4) Pair Inr nd cf None m Some fc
          by (auto simp add: PushBack_def RawMemory_dtor_def Deallocate_frame)
      qed
    qed
  qed
qed









subsection \<open>Failure during the transfer of a growing append\<close>

text \<open>
  C1 (the code departs from the claim). The array \<open>[1]\<close> has size 1 and capacity 1;
  appending \<open>2\<close> acquires block 1 with two slots and constructs the new element in slot 1.
  The copy of the existing element then fails. The failure propagates and the array is as
  before, but the new tail element is not destroyed: no destructor runs, and block 1 is
  released while its slot 1 still holds the object.
\<close>

theorem C1_PushBack_failed_transfer_tail_not_destroyed:
  "(case push_all copying_type [1] Vector_default (new_world None) of (v, s) \<Rightarrow>
     (case PushBack copying_type ByCopy 2 v (s\<lparr>budget := Some 2\<rparr>) of (r, v1, s1) \<Rightarrow>
        m_size v = 1 \<and> Capacity v = 1 \<and> elements v s = [Some (Obj 1)] \<and>
        r = Some ElemFailure \<and> v1 = v \<and> elements v1 s1 = elements v s \<and>
        trace s1 = Release 1 [Raw, Obj 2] # CopyCtor # Acquire 1 2 # trace s))"
  by code_simp

subsection \<open>Move-assignment\<close>

text \<open>
  C3 (the code departs from the claim). Array \<open>a = [1]\<close> owns block 0 and array
  \<open>b = [2]\<close> owns block 1. After \<^verbatim>\<open>a = std::move(b)\<close> the receiver holds block 1 and
  the source holds the null block with size 0: the storage is not swapped. When the
  lifetimes of both arrays have ended, block 0 is still allocated with its element alive,
  and the only release is that of block 1.
\<close>

theorem C3_move_assign_drops_prior_block:
  "(case push_all copying_type [1] Vector_default (new_world None) of (a, s1) \<Rightarrow>
     (case push_all copying_type [2] Vector_default s1 of (b, s2) \<Rightarrow>
        (case Vector_move_assign a (Other b) of (a1, rhs1) \<Rightarrow>
           GetAddress a = Some 0 \<and> GetAddress b = Some 1 \<and>
           a1 = b \<and> rhs1 = Other Vector_default \<and>
           mem (Vector_dtor a1 (Vector_dtor Vector_default s2)) 0 = Some [Obj 1] \<and>
           trace (Vector_dtor a1 (Vector_dtor Vector_default s2)) =
             Release 1 [Raw] # Dtor # trace s2)))"
  by code_simp

subsection \<open>The representation invariant\<close>

text \<open>
  C9 (the code departs from the claim). The array \<open>[1, 2]\<close> has size 2 and capacity 2.
  \<^verbatim>\<open>Erase(begin())\<close> succeeds and leaves size 1, but the slot at index 1, which is in
  the range from size to capacity, still holds a live object: the destructor ran on the
  erased position, not on the vacated last slot. \<^verbatim>\<open>PopBack\<close> on the same array leaves
  that slot uninitialised.
\<close>

theorem C9_Erase_leaves_live_object_past_size:
  "(case push_all copying_type [1, 2] Vector_default (new_world None) of (v, s) \<Rightarrow>
     (case Erase copying_type 0 v s of (r, v1, s1) \<Rightarrow>
        m_size v = 2 \<and> Capacity v = 2 \<and>
        r = None \<and> m_size v1 = 1 \<and> Capacity v1 = 2 \<and>
        load s1 (GetAddress v1) 1 = Some (Obj 2) \<and>
        trace s1 = MoveAssign # Dtor # trace s \<and>
        (case PopBack v s of (r2, v2, s2) \<Rightarrow>
           r2 = None \<and> m_size v2 = 1 \<and> load s2 (GetAddress v2) 1 = Some Raw)))"
  by code_simp

subsection \<open>Copy-assignment that reallocates\<close>

text \<open>
  C10. When the source is larger than the receiver's capacity and the assignment fails
  (the allocation or a copy of an element), the receiver is the same object state as
  before: same size, same capacity, same block, and the same elements. The hypothesis on
  the block says that the receiver's block is an allocated one, not the identifier the
  next allocation will use.
\<close>

theorem C10_copy_assign_realloc_strong_guarantee:
  assumes "Capacity this < m_size rhs"
    and "GetAddress this \<noteq> Some (next_block s)"
    and "Vector_copy_assign this (Other rhs) s = (r, this1, s1)"
    and "r \<noteq> None"
  shows "this1 = this \<and> Size this1 = Size this \<and> Capacity this1 = Capacity this \<and>
         elements this1 s1 = elements this s"
proof (cases "Vector_copy rhs s")
  case (Pair rc sc)
  show ?thesis
  proof (cases rc)
    case (Inl e)
    have eq: "this1 = this" "s1 = sc"
      using assms Pair Inl by (simp_all add: Vector_copy_assign_def)
    have "elements this sc = elements this s"
    proof (rule elements_cong)
      fix b assume "GetAddress this = Some b"
      then have "b \<noteq> next_block s" using assms(2) by auto
      then show "mem sc b = mem s b"
        using Vector_copy_fails_frame Pair Inl by blast
    qed
    then show ?thesis using eq by simp
  next
    case (Inr c)
    then show ?thesis
      using assms Pair by (simp add: Vector_copy_assign_def split: prod.splits)
  qed
qed

theorem C10_witness:
  "Capacity (fst recv_1) < m_size (fst src_789) \<and>
   GetAddress (fst recv_1) \<noteq> Some (next_block world_fail_2) \<and>
   fst (Vector_copy_assign (fst recv_1) (Other (fst src_789)) world_fail_2) = Some ElemFailure \<and>
   fst (snd (Vector_copy_assign (fst recv_1) (Other (fst src_789)) world_fail_2)) = fst recv_1 \<and>
   elements (fst recv_1) (snd (snd (Vector_copy_assign (fst recv_1) (Other (fst src_789)) world_fail_2))) = [Some (Obj 1)]"
proof -
  let ?res = "Vector_copy_assign (fst recv_1) (Other (fst src_789)) world_fail_2"
  have h1: "Capacity (fst recv_1) < m_size (fst src_789)" by code_simp
  have h2: "GetAddress (fst recv_1) \<noteq> Some (next_block world_fail_2)" by code_simp
  have h3: "?res = (fst ?res, fst (snd ?res), snd (snd ?res))" by simp
  have h4: "fst ?res = Some ElemFailure" by code_simp
  have h5: "elements (fst recv_1) world_fail_2 = [Some (Obj 1)]" by code_simp
  have h6: "fst ?res \<noteq> None" using h4 by simp
  note c = C10_copy_assign_realloc_strong_guarantee [OF h1 h2 h3 h6]
  from c have c1: "fst (snd ?res) = fst recv_1" by blast
  from c have c2: "elements (fst (snd ?res)) (snd (snd ?res)) = elements (fst recv_1) world_fail_2" by blast
  have c3: "elements (fst recv_1) (snd (snd ?res)) = [Some (Obj 1)]"
    using c2 unfolding c1 h5 .
  show ?thesis using h1 h2 h4 c1 c3 by blast
qed

subsection \<open>Growth policy\<close>



subsection \<open>Insertion followed by removal\<close>



subsection \<open>Resize\<close>



subsection \<open>Copy-assignment by case\<close>

text \<open>
  C5. Self-assignment returns the array and the world as they are. For two distinct
  well-formed arrays and no failing operation, copy-assignment succeeds, the receiver then
  has the size and the elements of the source, and the source is unchanged. If the source
  is larger than the receiver's capacity, a new block of exactly the source's size is
  acquired, every element is copy-constructed into it, and only then the receiver's old
  elements are destroyed and its old block released. If the source is not larger than the
  receiver, the capacity and the block stay, the first elements are copy-assigned, and
  the receiver's tail beyond them is destroyed (those slots are uninitialised
  afterwards). Otherwise the capacity and the block stay, the receiver's elements are
  copy-assigned and the remainder is copy-constructed.
\<close>

theorem C5_copy_assign_by_case:
  "Vector_copy_assign this Self s = (None, this, s) \<and>
   (rep this s xs \<and> rep rhs s ys \<and> separate this rhs \<and> budget s = None \<and>
    Vector_copy_assign this (Other rhs) s = (r, this1, s1) \<longrightarrow>
      r = None \<and> Size this1 = Size rhs \<and>
      elements this1 s1 = elements rhs s \<and> elements rhs s1 = elements rhs s \<and>
      (if Capacity this < Size rhs then
         Capacity this1 = Size rhs \<and> GetAddress this1 = Some (next_block s) \<and>
         trace s1 = release_old this s @ replicate (Size this) Dtor @ replicate (Size rhs) CopyCtor
                      @ Acquire (next_block s) (Size rhs) # trace s
       else if Size rhs \<le> Size this then
         Capacity this1 = Capacity this \<and> GetAddress this1 = GetAddress this \<and>
         trace s1 = replicate (Size this - Size rhs) Dtor @ replicate (Size rhs) CopyAssign @ trace s \<and>
         (\<forall>i. Size rhs \<le> i \<and> i < Size this \<longrightarrow> load s1 (GetAddress this) i = Some Raw)
       else
         Capacity this1 = Capacity this \<and> GetAddress this1 = GetAddress this \<and>
         trace s1 = replicate (Size rhs - Size this) CopyCtor @ replicate (Size this) CopyAssign @ trace s))"
proof -
  have a: "Vector_copy_assign this Self s = (None, this, s)"
    by (simp add: Vector_copy_assign_def)
  have b: "r = None \<and> Size this1 = Size rhs \<and>
      elements this1 s1 = elements rhs s \<and> elements rhs s1 = elements rhs s \<and>
      (if Capacity this < Size rhs then
         Capacity this1 = Size rhs \<and> GetAddress this1 = Some (next_block s) \<and>
         trace s1 = release_old this s @ replicate (Size this) Dtor @ replicate (Size rhs) CopyCtor
                      @ Acquire (next_block s) (Size rhs) # trace s
       else if Size rhs \<le> Size this then
         Capacity this1 = Capacity this \<and> GetAddress this1 = GetAddress this \<and>
         trace s1 = replicate (Size this - Size rhs) Dtor @ replicate (Size rhs) CopyAssign @ trace s \<and>
         (\<forall>i. Size rhs \<le> i \<and> i < Size this \<longrightarrow> load s1 (GetAddress this) i = Some Raw)
       else
         Capacity this1 = Capacity this \<and> GetAddress this1 = GetAddress this \<and>
         trace s1 = replicate (Size rhs - Size this) CopyCtor @ replicate (Size this) CopyAssign @ trace s)"
    if h: "rep this s xs" "rep rhs s ys" "separate this rhs" "budget s = None"
      "Vector_copy_assign this (Other rhs) s = (r, this1, s1)"
  proof -
    have sz: "Size rhs = length ys" "Size this = m_size this" "m_size this \<le> Capacity this"
      using h(1,2) by (simp_all add: rep_def Size_def)
    note er = rep_elements [OF h(2)]
    consider (realloc) "Capacity this < length ys"
      | (shrink) "length ys \<le> m_size this"
      | (within) "m_size this < length ys" "length ys \<le> Capacity this"
      by linarith
    then show ?thesis
    proof cases
      case realloc
      from copy_assign_realloc [OF h(1,2,4,3) realloc] h(5)
      have k: "r = None" "rep this1 s1 ys" "rep rhs s1 ys" "Capacity this1 = length ys"
        "GetAddress this1 = Some (next_block s)"
        "trace s1 = release_old this s @ replicate (m_size this) Dtor @ replicate (length ys) CopyCtor
                        @ Acquire (next_block s) (length ys) # trace s" by auto
      have "Size this1 = length ys" using k(2) by (simp add: rep_def Size_def)
      then show ?thesis
        using realloc k(1,4,5,6) sz rep_elements [OF k(2)] rep_elements [OF k(3)] er by simp
    next
      case shrink
      from copy_assign_shrink [OF h(1,2,4,3) shrink] h(5)
      have k: "r = None" "this1 = this\<lparr>m_size := length ys\<rparr>" "rep this1 s1 ys" "rep rhs s1 ys"
        "trace s1 = replicate (m_size this - length ys) Dtor @ replicate (length ys) CopyAssign @ trace s"
        "\<forall>i. length ys \<le> i \<and> i < m_size this \<longrightarrow> load s1 (GetAddress this) i = Some Raw" by auto
      have nl: "\<not> Capacity this < length ys" using shrink sz by simp
      show ?thesis
        using shrink nl k(1,2,5,6) sz rep_elements [OF k(3)] rep_elements [OF k(4)] er
        by (simp add: Size_def Capacity_def GetAddress_def)
    next
      case within
      from copy_assign_within_capacity [OF h(1,2,4,3) within] h(5)
      have k: "r = None" "this1 = this\<lparr>m_size := length ys\<rparr>" "rep this1 s1 ys" "rep rhs s1 ys"
        "trace s1 = replicate (length ys - m_size this) CopyCtor @ replicate (m_size this) CopyAssign @ trace s"
        by auto
      show ?thesis
        using within k(1,2,5) sz rep_elements [OF k(3)] rep_elements [OF k(4)] er
        by (simp add: Size_def Capacity_def GetAddress_def)
    qed
  qed
  show ?thesis using a b by blast
qed

theorem C5_witness:
  "rep (fst sized_10) (snd sized_10) (replicate 10 0) \<and> rep (fst src_789) (snd sized_10) [7, 8, 9] \<and>
   separate (fst sized_10) (fst src_789) \<and> budget (snd sized_10) = None \<and>
   Size (fst sized_10) = 10 \<and> Capacity (fst sized_10) = 10 \<and>
   fst (Vector_copy_assign (fst sized_10) (Other (fst src_789)) (snd sized_10)) = None \<and>
   Size (fst (snd (Vector_copy_assign (fst sized_10) (Other (fst src_789)) (snd sized_10)))) = 3 \<and>
   Capacity (fst (snd (Vector_copy_assign (fst sized_10) (Other (fst src_789)) (snd sized_10)))) = 10 \<and>
   elements (fst (snd (Vector_copy_assign (fst sized_10) (Other (fst src_789)) (snd sized_10))))
            (snd (snd (Vector_copy_assign (fst sized_10) (Other (fst src_789)) (snd sized_10))))
     = [Some (Obj 7), Some (Obj 8), Some (Obj 9)] \<and>
   trace (snd (snd (Vector_copy_assign (fst sized_10) (Other (fst src_789)) (snd sized_10))))
     = replicate 7 Dtor @ replicate 3 CopyAssign @ trace (snd sized_10)"
proof -
  let ?t = "fst sized_10" and ?s = "snd sized_10" and ?r = "fst src_789"
  let ?a = "Vector_copy_assign ?t (Other ?r) ?s"
  have h1: "rep ?t ?s (replicate 10 0)" by code_simp
  have h2: "rep ?r ?s [7, 8, 9]" by code_simp
  have h3: "separate ?t ?r" by code_simp
  have h4: "budget ?s = None" by code_simp
  have h5: "?a = (fst ?a, fst (snd ?a), snd (snd ?a))" by simp
  have sz: "Size ?t = 10" "Capacity ?t = 10" "Size ?r = 3" by code_simp+
  have el: "elements ?r ?s = [Some (Obj 7), Some (Obj 8), Some (Obj 9)]" by code_simp
  note t = C5_copy_assign_by_case [where this = ?t and s = ?s and rhs = ?r and xs = "replicate 10 0"
      and ys = "[7, 8, 9]" and r = "fst ?a" and ?this1.0 = "fst (snd ?a)" and ?s1.0 = "snd (snd ?a)"]
  from t h1 h2 h3 h4 h5 have c: "fst ?a = None \<and> Size (fst (snd ?a)) = Size ?r \<and>
      elements (fst (snd ?a)) (snd (snd ?a)) = elements ?r ?s \<and>
      (if Capacity ?t < Size ?r then
         Capacity (fst (snd ?a)) = Size ?r \<and> GetAddress (fst (snd ?a)) = Some (next_block ?s) \<and>
         trace (snd (snd ?a)) = release_old ?t ?s @ replicate (Size ?t) Dtor @ replicate (Size ?r) CopyCtor
                      @ Acquire (next_block ?s) (Size ?r) # trace ?s
       else if Size ?r \<le> Size ?t then
         Capacity (fst (snd ?a)) = Capacity ?t \<and> GetAddress (fst (snd ?a)) = GetAddress ?t \<and>
         trace (snd (snd ?a)) = replicate (Size ?t - Size ?r) Dtor @ replicate (Size ?r) CopyAssign @ trace ?s \<and>
         (\<forall>i. Size ?r \<le> i \<and> i < Size ?t \<longrightarrow> load (snd (snd ?a)) (GetAddress ?t) i = Some Raw)
       else
         Capacity (fst (snd ?a)) = Capacity ?t \<and> GetAddress (fst (snd ?a)) = GetAddress ?t \<and>
         trace (snd (snd ?a)) = replicate (Size ?r - Size ?t) CopyCtor @ replicate (Size ?t) CopyAssign @ trace ?s)"
    by blast
  then have c': "fst ?a = None \<and> Size (fst (snd ?a)) = 3 \<and>
      elements (fst (snd ?a)) (snd (snd ?a)) = [Some (Obj 7), Some (Obj 8), Some (Obj 9)] \<and>
      Capacity (fst (snd ?a)) = 10 \<and>
      trace (snd (snd ?a)) = replicate 7 Dtor @ replicate 3 CopyAssign @ trace ?s"
    unfolding sz el by simp
  show ?thesis using h1 h2 h3 h4 sz c' by blast
qed

subsection \<open>Failure during an insertion\<close>




end
